theory Spec2Isabelle
  imports Main "HOL-Library.AList" "HOL-Library.Monad_Syntax"
begin

section \<open>JavaScript values\<close>

text \<open>
  The functions of \<^verbatim>\<open>src/utils.ts\<close> work on plain JavaScript data: operation
  descriptors, update documents and operator groups are objects, a pipeline update is an
  array, and the leaves are arbitrary values. An object is the list of its own enumerable
  properties in insertion order; a well-formed object names each property once.
  (JavaScript lists index-like names before the others; no statement below depends on the
  order of the names.) Numbers are integers here (no \<^verbatim>\<open>NaN\<close>, no fractions), a
  \<^verbatim>\<open>Date\<close> is its epoch value. The code reads properties by fixed names only
  (\<^verbatim>\<open>$set\<close>, \<^verbatim>\<open>updatedAt\<close>, \<^verbatim>\<open>update\<close>, ...), none of them the name of a member
  that a prototype defines, so a read sees the own properties alone. The operator
  \<^verbatim>\<open>in\<close> is applied to arbitrary field names and follows the prototype chain: it
  finds the inherited members too.
\<close>

datatype jsval =
    JUndefined
  | JNull
  | JBool bool
  | JNum int
  | JStr string
  | JDate nat
  | JArr "jsval list"
  | JObj "(string \<times> jsval) list"

type_synonym props = "(string \<times> jsval) list"

text \<open>\<^verbatim>\<open>!v\<close> is \<open>\<not> truthy v\<close>.\<close>

fun truthy :: "jsval \<Rightarrow> bool" where
  "truthy JUndefined = False"
| "truthy JNull = False"
| "truthy (JBool b) = b"
| "truthy (JNum n) = (n \<noteq> 0)"
| "truthy (JStr s) = (s \<noteq> [])"
| "truthy (JDate t) = True"
| "truthy (JArr xs) = True"
| "truthy (JObj ps) = True"

fun nullish :: "jsval \<Rightarrow> bool" where
  "nullish JUndefined = True"
| "nullish JNull = True"
| "nullish v = False"

text \<open>\<^verbatim>\<open>Array.isArray\<close>.\<close>

fun isArray :: "jsval \<Rightarrow> bool" where
  "isArray (JArr xs) = True"
| "isArray v = False"

text \<open>The decimal name of an array index.\<close>

definition digit_char :: "nat \<Rightarrow> char" where
  "digit_char d = char_of (48 + d)"

function string_of_nat :: "nat \<Rightarrow> string" where
  "string_of_nat n =
     (if n < 10 then [digit_char n] else string_of_nat (n div 10) @ [digit_char (n mod 10)])"
  by pat_completeness auto
termination
  by (relation "measure id") auto

declare string_of_nat.simps [simp del]

definition index_keys :: "nat \<Rightarrow> string list" where
  "index_keys n = map string_of_nat [0..<n]"

text \<open>
  The own enumerable properties of a value, as an object spread \<^verbatim>\<open>{...v}\<close> and
  \<^verbatim>\<open>Object.keys(v)\<close> see them: those of an object, the indexed elements of an array,
  the indexed characters of a string, none for any other value.
\<close>

fun own_props :: "jsval \<Rightarrow> props" where
  "own_props (JObj ps) = ps"
| "own_props (JArr xs) = zip (index_keys (length xs)) xs"
| "own_props (JStr s) = zip (index_keys (length s)) (map (\<lambda>c. JStr [c]) s)"
| "own_props v = []"

text \<open>\<^verbatim>\<open>v.k\<close> on a value that is neither \<^verbatim>\<open>undefined\<close> nor \<^verbatim>\<open>null\<close>.\<close>

definition ownProp :: "jsval \<Rightarrow> string \<Rightarrow> jsval" where
  "ownProp v k = (case map_of (own_props v) k of Some x \<Rightarrow> x | None \<Rightarrow> JUndefined)"

text \<open>\<^verbatim>\<open>v.k\<close>: reading a property of \<^verbatim>\<open>undefined\<close> or \<^verbatim>\<open>null\<close> throws a TypeError,
  the only failure of this code; it is the result \<open>None\<close>.\<close>

definition getProp :: "jsval \<Rightarrow> string \<Rightarrow> jsval option" where
  "getProp v k = (if nullish v then None else Some (ownProp v k))"

text \<open>\<^verbatim>\<open>v?.k\<close>.\<close>

definition optProp :: "jsval \<Rightarrow> string \<Rightarrow> jsval" where
  "optProp v k = (if nullish v then JUndefined else ownProp v k)"

text \<open>
  The string-named members of the built-in prototypes (ECMAScript 2023 with its Annex B;
  an older engine lacks the newest members of \<^verbatim>\<open>Array.prototype\<close>). Every object
  inherits those of \<^verbatim>\<open>Object.prototype\<close>; an array and a date inherit those of their
  own prototype before them.
\<close>

definition objectPrototype :: "string list" where
  "objectPrototype =
     [''constructor'', ''__defineGetter__'', ''__defineSetter__'', ''hasOwnProperty'',
      ''__lookupGetter__'', ''__lookupSetter__'', ''isPrototypeOf'',
      ''propertyIsEnumerable'', ''toString'', ''valueOf'', ''__proto__'',
      ''toLocaleString'']"

definition arrayPrototype :: "string list" where
  "arrayPrototype =
     [''length'', ''constructor'', ''at'', ''concat'', ''copyWithin'', ''fill'', ''find'',
      ''findIndex'', ''findLast'', ''findLastIndex'', ''lastIndexOf'', ''pop'', ''push'',
      ''reverse'', ''shift'', ''unshift'', ''slice'', ''sort'', ''splice'', ''includes'',
      ''indexOf'', ''join'', ''keys'', ''entries'', ''values'', ''forEach'', ''filter'',
      ''flat'', ''flatMap'', ''map'', ''every'', ''some'', ''reduce'', ''reduceRight'',
      ''toLocaleString'', ''toString'', ''toReversed'', ''toSorted'', ''toSpliced'',
      ''with'']"

definition datePrototype :: "string list" where
  "datePrototype =
     [''constructor'', ''toString'', ''toDateString'', ''toTimeString'', ''toISOString'',
      ''toUTCString'', ''toGMTString'', ''getDate'', ''setDate'', ''getDay'',
      ''getFullYear'', ''setFullYear'', ''getHours'', ''setHours'', ''getMilliseconds'',
      ''setMilliseconds'', ''getMinutes'', ''setMinutes'', ''getMonth'', ''setMonth'',
      ''getSeconds'', ''setSeconds'', ''getTime'', ''setTime'', ''getTimezoneOffset'',
      ''getUTCDate'', ''setUTCDate'', ''getUTCDay'', ''getUTCFullYear'', ''setUTCFullYear'',
      ''getUTCHours'', ''setUTCHours'', ''getUTCMilliseconds'', ''setUTCMilliseconds'',
      ''getUTCMinutes'', ''setUTCMinutes'', ''getUTCMonth'', ''setUTCMonth'',
      ''getUTCSeconds'', ''setUTCSeconds'', ''valueOf'', ''getYear'', ''setYear'',
      ''toJSON'', ''toLocaleString'', ''toLocaleDateString'', ''toLocaleTimeString'']"

fun inherited :: "jsval \<Rightarrow> string list" where
  "inherited (JObj ps) = objectPrototype"
| "inherited (JArr xs) = arrayPrototype @ objectPrototype"
| "inherited (JDate t) = datePrototype @ objectPrototype"
| "inherited v = []"

text \<open>
  \<^verbatim>\<open>k in v\<close>: whether \<open>k\<close> names an own property of \<open>v\<close> (an array has
  \<^verbatim>\<open>length\<close> besides its elements) or a member that \<open>v\<close> inherits; a TypeError when
  \<open>v\<close> is not an object.
\<close>

fun key_in :: "string \<Rightarrow> jsval \<Rightarrow> bool option" where
  "key_in k (JObj ps) =
     Some (k \<in> set (map fst ps) \<or> k \<in> set (inherited (JObj ps)))"
| "key_in k (JArr xs) =
     Some (k \<in> set (index_keys (length xs)) \<or> k = ''length'' \<or> k \<in> set (inherited (JArr xs)))"
| "key_in k (JDate t) = Some (k \<in> set (inherited (JDate t)))"
| "key_in k v = None"

text \<open>
  Writing the properties \<open>src\<close> one after the other into the object \<open>target\<close>: a name that
  is there keeps its place and takes the new value, a new name goes to the end.
\<close>

definition assign :: "props \<Rightarrow> props \<Rightarrow> props" where
  "assign target src = fold (\<lambda>(k, v). AList.update k v) src target"

text \<open>The object literal \<^verbatim>\<open>{ <target>, ...v }\<close>.\<close>

definition spread :: "props \<Rightarrow> jsval \<Rightarrow> props" where
  "spread target v = assign target (own_props v)"

section \<open>Timestamps on updates\<close>

text \<open>
  \<^verbatim>\<open>!update.$set?.<field> && !update.$unset?.<field> && { <field>: v }\<close>: the
  one-property object when neither group holds a truthy value for the field, \<^verbatim>\<open>false\<close>
  otherwise.
\<close>

definition unless_targeted :: "jsval \<Rightarrow> string \<Rightarrow> jsval \<Rightarrow> jsval" where
  "unless_targeted update field v =
     (if \<not> truthy (optProp (ownProp update ''$set'') field) then
        (if \<not> truthy (optProp (ownProp update ''$unset'') field) then JObj [(field, v)]
         else JBool False)
      else JBool False)"

text \<open>\<^verbatim>\<open>Object.keys(entries).length > 0 && { <name>: entries }\<close>.\<close>

definition when_nonempty :: "string \<Rightarrow> props \<Rightarrow> jsval" where
  "when_nonempty name entries =
     (if length (map fst entries) > 0 then JObj [(name, JObj entries)] else JBool False)"

definition timestampUpdateFilter :: "jsval \<Rightarrow> jsval option" where
  "timestampUpdateFilter update = do {
     given \<leftarrow> getProp update ''$currentDate'';
     let currentDate = spread (spread [] given) (unless_targeted update ''updatedAt'' (JBool True));
     Some (JObj (spread (spread [] update) (when_nonempty ''$currentDate'' currentDate)))
   }"

section \<open>Timestamps on bulk write operations\<close>

text \<open>
  The branches for \<^verbatim>\<open>updateOne\<close> and \<^verbatim>\<open>updateMany\<close> are the same text in the source
  but for the tag; \<open>now\<close> is the clock reading of the one \<^verbatim>\<open>new Date()\<close> in it.
\<close>

definition timestampUpdateModel :: "nat \<Rightarrow> string \<Rightarrow> jsval \<Rightarrow> jsval option" where
  "timestampUpdateModel now tag operation = do {
     update \<leftarrow> getProp (ownProp operation tag) ''update'';
     if isArray update then Some operation
     else do {
       given \<leftarrow> getProp update ''$currentDate'';
       let currentDate =
             spread (spread [] given) (unless_targeted update ''updatedAt'' (JBool True));
           setOnInsert =
             spread (spread [] (ownProp update ''$setOnInsert''))
               (unless_targeted update ''createdAt'' (JDate now))
       in Some (JObj [(tag, JObj (AList.update ''update''
            (JObj (spread (spread (spread [] update)
               (when_nonempty ''$currentDate'' currentDate))
               (when_nonempty ''$setOnInsert'' setOnInsert)))
            (spread [] (ownProp operation tag))))])
     }
   }"

text \<open>
  \<open>now1\<close> and \<open>now2\<close> are the first and the second clock reading of the call: an insert
  and a replacement evaluate \<^verbatim>\<open>new Date()\<close> twice, an update at most once.
\<close>

definition timestampBulkWriteOperation :: "nat \<Rightarrow> nat \<Rightarrow> jsval \<Rightarrow> jsval option" where
  "timestampBulkWriteOperation now1 now2 operation = do {
     isInsertOne \<leftarrow> key_in ''insertOne'' operation;
     if isInsertOne then do {
       document \<leftarrow> getProp (ownProp operation ''insertOne'') ''document'';
       Some (JObj [(''insertOne'', JObj [(''document'',
         JObj (spread [(''createdAt'', JDate now1), (''updatedAt'', JDate now2)] document))])])
     } else do {
       isUpdateOne \<leftarrow> key_in ''updateOne'' operation;
       if isUpdateOne then timestampUpdateModel now1 ''updateOne'' operation
       else do {
         isUpdateMany \<leftarrow> key_in ''updateMany'' operation;
         if isUpdateMany then timestampUpdateModel now1 ''updateMany'' operation
         else do {
           isReplaceOne \<leftarrow> key_in ''replaceOne'' operation;
           if isReplaceOne then do {
             replacement \<leftarrow> getProp (ownProp operation ''replaceOne'') ''replacement'';
             Some (JObj [(''replaceOne'', JObj (AList.update ''replacement''
               (JObj (spread [(''createdAt'', JDate now1), (''updatedAt'', JDate now2)]
                  replacement))
               (spread [] (ownProp operation ''replaceOne''))))])
           } else Some operation
         }
       }
     }
   }"

section \<open>Cleaning the set-on-insert group\<close>

text \<open>\<^verbatim>\<open>key in (update.<name> || {})\<close>.\<close>

definition in_group :: "string \<Rightarrow> jsval \<Rightarrow> string \<Rightarrow> bool option" where
  "in_group key update name = do {
     g \<leftarrow> getProp update name;
     key_in key (if truthy g then g else JObj [])
   }"

text \<open>The condition of the loop body; \<^verbatim>\<open>||\<close> stops at the first group that has the key.\<close>

definition conflicts :: "string \<Rightarrow> jsval \<Rightarrow> bool option" where
  "conflicts key update = do {
     inSet \<leftarrow> in_group key update ''$set'';
     if inSet then Some True else do {
       inPush \<leftarrow> in_group key update ''$push'';
       if inPush then Some True else do {
         inInc \<leftarrow> in_group key update ''$inc'';
         if inInc then Some True else in_group key update ''$unset''
       }
     }
   }"

text \<open>
  The loop over \<^verbatim>\<open>Object.keys($setOnInsert)\<close>, the names taken before the first
  iteration. The source deletes in place and returns the same object; the model returns
  its final contents.
\<close>

fun cleanLoop :: "string list \<Rightarrow> props \<Rightarrow> jsval \<Rightarrow> props option" where
  "cleanLoop [] setOnInsert update = Some setOnInsert"
| "cleanLoop (key # keys) setOnInsert update = do {
     c \<leftarrow> conflicts key update;
     cleanLoop keys (if c then AList.delete key setOnInsert else setOnInsert) update
   }"

definition cleanSetOnInsert :: "props \<Rightarrow> jsval \<Rightarrow> props option" where
  "cleanSetOnInsert setOnInsert update = cleanLoop (map fst setOnInsert) setOnInsert update"

section \<open>The types of the arguments\<close>

text \<open>
  \<^verbatim>\<open>UpdateFilter<TSchema>\<close>, as far as \<^verbatim>\<open>cleanSetOnInsert\<close> reads it: an object whose
  operator groups \<^verbatim>\<open>$set\<close>, \<^verbatim>\<open>$push\<close>, \<^verbatim>\<open>$inc\<close> and \<^verbatim>\<open>$unset\<close> are objects where
  they are present.
\<close>

fun isGroup :: "jsval \<Rightarrow> bool" where
  "isGroup JUndefined = True"
| "isGroup (JObj ps) = True"
| "isGroup v = False"

definition conflictGroups :: "string list" where
  "conflictGroups = [''$set'', ''$push'', ''$inc'', ''$unset'']"

fun isUpdateFilter :: "jsval \<Rightarrow> bool" where
  "isUpdateFilter (JObj ps) = list_all (\<lambda>g. isGroup (ownProp (JObj ps) g)) conflictGroups"
| "isUpdateFilter v = False"

text \<open>The property names of a value.\<close>

definition keysOf :: "jsval \<Rightarrow> string list" where
  "keysOf v = map fst (own_props v)"

text \<open>Whether one of the four groups of the update names the key.\<close>

definition targeted :: "jsval \<Rightarrow> string \<Rightarrow> bool" where
  "targeted update key = list_ex (\<lambda>g. key \<in> set (keysOf (ownProp update g))) conflictGroups"

section \<open>Projections\<close>

text \<open>
  \<^verbatim>\<open>ProjectionType\<close> is a computation on types. A record shape is the list of its fields,
  each a leaf type or a nested record; a projection maps dotted paths to numbers and is
  absent (\<open>None\<close>) when its type admits \<^verbatim>\<open>undefined\<close>.
\<close>

datatype shape = Leaf string | Nested "(string \<times> shape) list"

type_synonym fields = "(string \<times> shape) list"

type_synonym projection = "(string \<times> int) list"

text \<open>A dotted path as the list of its segments.\<close>

fun segments :: "string \<Rightarrow> string list" where
  "segments [] = [[]]"
| "segments (c # cs) =
     (if c = CHR ''.'' then [] # segments cs
      else (case segments cs of [] \<Rightarrow> [[c]] | seg # segs \<Rightarrow> (c # seg) # segs))"

text \<open>The paths below the field \<open>k\<close>: the rest of every path that starts with \<open>k\<close>.\<close>

definition below :: "string \<Rightarrow> string list list \<Rightarrow> string list list" where
  "below k paths = map tl (filter (\<lambda>p. p \<noteq> [] \<and> hd p = k) paths)"

text \<open>
  Modelled from the spec: \<^verbatim>\<open>DeepPick\<close> (\<^verbatim>\<open>src/DeepPick.ts\<close>, imported by
  \<^verbatim>\<open>utils.ts\<close>) is not among the sources. The specification: the result contains exactly
  the top-level fields that are roots of at least one included dotted path, and object-typed
  fields are recursively narrowed to only the sub-paths requested; fields not mentioned by
  any included path are excluded. A field whose own path is requested is kept whole.
\<close>

fun DeepPick :: "shape \<Rightarrow> string list list \<Rightarrow> shape"
  and pickFields :: "fields \<Rightarrow> string list list \<Rightarrow> fields" where
  "DeepPick (Leaf t) paths = Leaf t"
| "DeepPick (Nested fs) paths = (if [] \<in> set paths then Nested fs else Nested (pickFields fs paths))"
| "pickFields [] paths = []"
| "pickFields ((k, sh) # fs) paths =
     (if below k paths = [] then pickFields fs paths
      else (k, DeepPick sh (below k paths)) # pickFields fs paths)"

text \<open>
  Modelled from the spec: \<^verbatim>\<open>WithId\<close> is a type of the database driver, not among the
  sources. The specification: the identifier field is guaranteed present, and is retained
  whether or not it is requested. A shape that has the field keeps it; otherwise the field
  is added with the driver's identifier type.
\<close>

definition WithId :: "fields \<Rightarrow> fields" where
  "WithId fs = (if ''_id'' \<in> set (map fst fs) then fs else (''_id'', Leaf ''ObjectId'') # fs)"

text \<open>
  \<^verbatim>\<open>undefined extends Projection ? WithId<TSchema>
     : WithId<DeepPick<TSchema, keyof Projection & string>>\<close>, the schema given by its
  fields; the keys of the projection are its paths, whatever number each maps to.
\<close>

fun fieldsOf :: "shape \<Rightarrow> fields" where
  "fieldsOf (Nested fs) = fs"
| "fieldsOf (Leaf t) = []"

definition ProjectionType :: "fields \<Rightarrow> projection option \<Rightarrow> fields" where
  "ProjectionType schema projection =
     (case projection of
        None \<Rightarrow> WithId schema
      | Some p \<Rightarrow> WithId (fieldsOf (DeepPick (Nested schema) (map segments (map fst p)))))"

section \<open>Writing properties\<close>

lemmas js_defs = timestampUpdateFilter_def timestampBulkWriteOperation_def timestampUpdateModel_def
  getProp_def ownProp_def optProp_def spread_def assign_def unless_targeted_def when_nonempty_def
  cleanSetOnInsert_def conflicts_def in_group_def objectPrototype_def

lemma tags_not_inherited [simp]:
  "''insertOne'' \<notin> set objectPrototype"
  "''updateOne'' \<notin> set objectPrototype"
  "''updateMany'' \<notin> set objectPrototype"
  "''replaceOne'' \<notin> set objectPrototype"
  by (simp_all add: objectPrototype_def)

lemma update_fresh: "k \<notin> fst ` set t \<Longrightarrow> AList.update k v t = t @ [(k, v)]"
  by (induction t) auto

lemma assign_Cons: "assign t ((k, v) # src) = assign (AList.update k v t) src"
  by (simp add: assign_def)

lemma assign_Nil [simp]: "assign t [] = t"
  by (simp add: assign_def)

lemma keys_assign: "fst ` set (assign t src) = fst ` set t \<union> fst ` set src"
proof (induction src arbitrary: t)
  case Nil
  show ?case by simp
next
  case (Cons p src)
  obtain k v where p: "p = (k, v)" by (cases p)
  show ?case
    unfolding p assign_Cons Cons.IH by (auto simp: AList.dom_update)
qed

lemma distinct_assign: "distinct (map fst t) \<Longrightarrow> distinct (map fst (assign t src))"
proof (induction src arbitrary: t)
  case Nil
  then show ?case by simp
next
  case (Cons p src)
  obtain k v where p: "p = (k, v)" by (cases p)
  show ?case
    unfolding p assign_Cons using Cons.prems by (intro Cons.IH) (rule AList.distinct_update)
qed

lemma map_of_assign:
  "distinct (map fst src) \<Longrightarrow> map_of (assign t src) = map_of t ++ map_of src"
proof (induction src arbitrary: t)
  case Nil
  show ?case by simp
next
  case (Cons p src)
  obtain k v where p: "p = (k, v)" by (cases p)
  from Cons.prems have fresh: "k \<notin> fst ` set src" and d: "distinct (map fst src)"
    by (auto simp: p)
  have "map_of (assign t (p # src)) = (map_of t)(k \<mapsto> v) ++ map_of src"
    unfolding p assign_Cons Cons.IH [OF d] by (simp add: AList.update_conv')
  also have "\<dots> = map_of t ++ map_of (p # src)"
  proof -
    from fresh have none: "map_of src k = None" by (simp add: map_of_eq_None_iff)
    show ?thesis
      by (rule ext) (simp add: p map_add_def none split: option.splits)
  qed
  finally show ?case .
qed

lemma assign_append: "distinct (map fst (t @ src)) \<Longrightarrow> assign t src = t @ src"
proof (induction src arbitrary: t)
  case Nil
  show ?case by simp
next
  case (Cons p src)
  obtain k v where p: "p = (k, v)" by (cases p)
  from Cons.prems have fresh: "k \<notin> fst ` set t" by (auto simp: p)
  from Cons.prems have "distinct (map fst ((t @ [(k, v)]) @ src))" by (simp add: p)
  then have "assign (t @ [(k, v)]) src = (t @ [(k, v)]) @ src" by (rule Cons.IH)
  then show ?case by (simp add: p assign_Cons update_fresh [OF fresh])
qed

lemma assign_Nil_id: "distinct (map fst ps) \<Longrightarrow> assign [] ps = ps"
  using assign_append [of "[]" ps] by simp

lemma assign_eq_Nil: "assign t src = [] \<longleftrightarrow> t = [] \<and> src = []"
proof -
  have "fst ` set (assign t src) = {} \<longleftrightarrow> fst ` set t = {} \<and> fst ` set src = {}"
    unfolding keys_assign by simp
  then show ?thesis by simp
qed

section \<open>The scenario of the specification\<close>

text \<open>
  Claim C1. Normalizing the bulk operation
  \<^verbatim>\<open>{ updateOne: { filter: { status: 'open' }, update: { $set: { status: 'closed' } } } }\<close>
  gives an \<^verbatim>\<open>updateOne\<close> operation with the same filter whose update is
  \<^verbatim>\<open>{ $set: { status: 'closed' }, $currentDate: { updatedAt: true },
     $setOnInsert: { createdAt: t } }\<close>, \<open>t\<close> the clock reading of the call; and
  \<^verbatim>\<open>cleanSetOnInsert\<close> on that set-on-insert group and the update with \<^verbatim>\<open>createdAt: x\<close>
  added to its \<^verbatim>\<open>$set\<close> removes \<^verbatim>\<open>createdAt\<close> from the group, for every value \<open>x\<close>.
\<close>

theorem C1_scenario:
  "timestampBulkWriteOperation t t'
     (JObj [(''updateOne'', JObj
        [(''filter'', JObj [(''status'', JStr ''open'')]),
         (''update'', JObj [(''$set'', JObj [(''status'', JStr ''closed'')])])])])
   = Some (JObj [(''updateOne'', JObj
        [(''filter'', JObj [(''status'', JStr ''open'')]),
         (''update'', JObj
            [(''$set'', JObj [(''status'', JStr ''closed'')]),
             (''$currentDate'', JObj [(''updatedAt'', JBool True)]),
             (''$setOnInsert'', JObj [(''createdAt'', JDate t)])])])])
   \<and> cleanSetOnInsert [(''createdAt'', JDate t)]
        (JObj [(''$set'', JObj [(''status'', JStr ''closed''), (''createdAt'', x)]),
               (''$currentDate'', JObj [(''updatedAt'', JBool True)]),
               (''$setOnInsert'', JObj [(''createdAt'', JDate t)])])
     = Some []"
  by (simp add: js_defs)

theorem C1_scenario_witness:
  "timestampBulkWriteOperation 5 6
     (JObj [(''updateOne'', JObj
        [(''filter'', JObj [(''status'', JStr ''open'')]),
         (''update'', JObj [(''$set'', JObj [(''status'', JStr ''closed'')])])])])
   = Some (JObj [(''updateOne'', JObj
        [(''filter'', JObj [(''status'', JStr ''open'')]),
         (''update'', JObj
            [(''$set'', JObj [(''status'', JStr ''closed'')]),
             (''$currentDate'', JObj [(''updatedAt'', JBool True)]),
             (''$setOnInsert'', JObj [(''createdAt'', JDate 5)])])])])
   \<and> cleanSetOnInsert [(''createdAt'', JDate 5)]
        (JObj [(''$set'', JObj [(''status'', JStr ''closed''), (''createdAt'', JDate 7)]),
               (''$currentDate'', JObj [(''updatedAt'', JBool True)]),
               (''$setOnInsert'', JObj [(''createdAt'', JDate 5)])])
     = Some []"
  by (rule C1_scenario [of 5 6 "JDate 7"])

section \<open>Properties of the set-on-insert cleanup\<close>

lemma in_group_typed:
  assumes "isUpdateFilter u" and "g \<in> set conflictGroups"
  shows "in_group k u g
    = Some (k \<in> set (keysOf (ownProp u g)) \<or> k \<in> set objectPrototype)"
proof -
  from assms(1) obtain ps where u: "u = JObj ps" by (cases u) auto
  from assms have grp: "isGroup (ownProp u g)" by (simp add: u list_all_iff)
  have gp: "getProp u g = Some (ownProp u g)" by (simp add: u getProp_def)
  from grp show ?thesis
    by (cases "ownProp u g") (simp_all add: in_group_def gp keysOf_def)
qed

lemma conflicts_typed:
  assumes "isUpdateFilter u"
  shows "conflicts k u = Some (targeted u k \<or> k \<in> set objectPrototype)"
  using assms
  by (auto simp: conflicts_def in_group_typed targeted_def conflictGroups_def)

lemma cleanLoop_typed:
  assumes "isUpdateFilter u"
  shows "cleanLoop ks s u
    = Some (filter (\<lambda>p. \<not> (fst p \<in> set ks \<and>
        (targeted u (fst p) \<or> fst p \<in> set objectPrototype))) s)"
proof (induction ks arbitrary: s)
  case Nil
  show ?case by simp
next
  case (Cons k ks)
  have del: "AList.delete k s = filter (\<lambda>p. fst p \<noteq> k) s"
    by (induction s) auto
  show ?case
    by (auto simp: conflicts_typed [OF assms] Cons.IH del intro: filter_cong)
qed

lemma cleanSetOnInsert_typed:
  assumes "isUpdateFilter u"
  shows "cleanSetOnInsert s u
    = Some (filter (\<lambda>p. \<not> (targeted u (fst p) \<or> fst p \<in> set objectPrototype)) s)"
  unfolding cleanSetOnInsert_def cleanLoop_typed [OF assms]
  by (auto intro: filter_cong)

lemma in_group_sound:
  assumes "in_group k u g = Some b" and "k \<in> set (keysOf (ownProp u g))"
  shows b
proof -
  from assms(1) have nn: "\<not> nullish u" and
    ki: "key_in k (if truthy (ownProp u g) then ownProp u g else JObj []) = Some b"
    by (auto simp: in_group_def getProp_def split: if_splits)
  from assms(2) ki show ?thesis
    by (cases "ownProp u g") (auto simp: keysOf_def split: if_splits dest: set_zip_leftD)
qed

lemma conflicts_sound:
  assumes "conflicts k u = Some c" and "targeted u k"
  shows c
  using assms
  by (auto simp: conflicts_def targeted_def conflictGroups_def
      split: Option.bind_splits if_splits dest: in_group_sound)

lemma cleanLoop_sound:
  assumes "cleanLoop ks s u = Some r"
  shows "fst ` set r \<subseteq> fst ` set s \<and> (\<forall>k\<in>set ks. targeted u k \<longrightarrow> k \<notin> fst ` set r)"
  using assms
proof (induction ks arbitrary: s)
  case Nil
  then show ?case by simp
next
  case (Cons k ks)
  from Cons.prems obtain c where c: "conflicts k u = Some c"
    and rest: "cleanLoop ks (if c then AList.delete k s else s) u = Some r"
    by (auto split: Option.bind_splits)
  note ih = Cons.IH [OF rest]
  have sub: "fst ` set (if c then AList.delete k s else s) \<subseteq> fst ` set s"
    using AList.dom_delete_subset [of k s] by simp
  have "targeted u k \<Longrightarrow> k \<notin> fst ` set r"
  proof -
    assume "targeted u k"
    with c have c by (rule conflicts_sound)
    with ih have "fst ` set r \<subseteq> fst ` set (AList.delete k s)" by simp
    then show ?thesis using AList.delete_notin_dom [of k s] by blast
  qed
  moreover from ih sub have "fst ` set r \<subseteq> fst ` set s" by blast
  moreover from ih have "\<forall>k'\<in>set ks. targeted u k' \<longrightarrow> k' \<notin> fst ` set r" by blast
  ultimately show ?case by simp
qed

lemma targeted_iff:
  "targeted u k \<longleftrightarrow>
     k \<in> set (keysOf (ownProp u ''$set'')) \<or> k \<in> set (keysOf (ownProp u ''$push'')) \<or>
     k \<in> set (keysOf (ownProp u ''$inc'')) \<or> k \<in> set (keysOf (ownProp u ''$unset''))"
  by (simp add: targeted_def conflictGroups_def)

text \<open>
  Claim C4. For every set-on-insert group \<open>s\<close> and every update \<open>u\<close>, the result of
  \<^verbatim>\<open>cleanSetOnInsert(s, u)\<close> shares no key with \<^verbatim>\<open>u.$set\<close>, \<^verbatim>\<open>u.$push\<close>,
  \<^verbatim>\<open>u.$inc\<close> or \<^verbatim>\<open>u.$unset\<close>. The call returns for every update of the type
  \<^verbatim>\<open>UpdateFilter\<close>; the keys of whatever it returns, for any argument at all, are in none
  of the four groups.
\<close>

theorem C4_setOnInsert_no_conflict:
  "(isUpdateFilter u \<longrightarrow> cleanSetOnInsert s u \<noteq> None) \<and>
   (\<forall>r. cleanSetOnInsert s u = Some r \<longrightarrow>
      (\<forall>k\<in>set (map fst r).
         k \<notin> set (keysOf (ownProp u ''$set'')) \<and> k \<notin> set (keysOf (ownProp u ''$push'')) \<and>
         k \<notin> set (keysOf (ownProp u ''$inc'')) \<and> k \<notin> set (keysOf (ownProp u ''$unset''))))"
proof -
  have total: "cleanSetOnInsert s u \<noteq> None" if "isUpdateFilter u"
    using that by (simp add: cleanSetOnInsert_typed)
  have free: "\<not> targeted u k" if r: "cleanSetOnInsert s u = Some r" and k: "k \<in> set (map fst r)"
    for r k
  proof -
    from r have loop: "cleanLoop (map fst s) s u = Some r" by (simp add: cleanSetOnInsert_def)
    from cleanLoop_sound [OF loop]
    have sub: "fst ` set r \<subseteq> fst ` set s"
      and nt: "\<forall>k\<in>set (map fst s). targeted u k \<longrightarrow> k \<notin> fst ` set r"
      by blast+
    from k have kr: "k \<in> fst ` set r" by simp
    with sub have "k \<in> set (map fst s)" by auto
    with nt kr show ?thesis by blast
  qed
  from total free show ?thesis
    unfolding targeted_iff by blast
qed

theorem C4_setOnInsert_no_conflict_witness:
  "isUpdateFilter (JObj [(''$set'', JObj [(''status'', JStr ''closed'')]),
                         (''$inc'', JObj [(''visits'', JNum 1)])])
   \<and> cleanSetOnInsert
        [(''createdAt'', JDate 5), (''status'', JStr ''open''), (''visits'', JNum 0)]
        (JObj [(''$set'', JObj [(''status'', JStr ''closed'')]),
               (''$inc'', JObj [(''visits'', JNum 1)])])
     = Some [(''createdAt'', JDate 5)]
   \<and> ''createdAt'' \<notin> set (keysOf (ownProp (JObj [(''$set'', JObj [(''status'', JStr ''closed'')]),
               (''$inc'', JObj [(''visits'', JNum 1)])]) ''$set''))
   \<and> ''createdAt'' \<notin> set (keysOf (ownProp (JObj [(''$set'', JObj [(''status'', JStr ''closed'')]),
               (''$inc'', JObj [(''visits'', JNum 1)])]) ''$inc''))"
proof -
  let ?u = "JObj [(''$set'', JObj [(''status'', JStr ''closed'')]),
                  (''$inc'', JObj [(''visits'', JNum 1)])]"
  let ?s = "[(''createdAt'', JDate 5), (''status'', JStr ''open''), (''visits'', JNum 0)]"
  have typed: "isUpdateFilter ?u"
    by (simp add: conflictGroups_def ownProp_def)
  have run: "cleanSetOnInsert ?s ?u = Some [(''createdAt'', JDate 5)]"
    by (simp add: js_defs)
  from C4_setOnInsert_no_conflict [of ?u ?s] run
  have "\<forall>k\<in>set (map fst [(''createdAt'', JDate 5)]).
         k \<notin> set (keysOf (ownProp ?u ''$set'')) \<and> k \<notin> set (keysOf (ownProp ?u ''$push'')) \<and>
         k \<notin> set (keysOf (ownProp ?u ''$inc'')) \<and> k \<notin> set (keysOf (ownProp ?u ''$unset''))"
    by blast
  with typed run show ?thesis by simp
qed

text \<open>
  Claim C10 says that \<^verbatim>\<open>cleanSetOnInsert\<close> removes a key only where one of
  \<^verbatim>\<open>u.$set\<close>, \<^verbatim>\<open>u.$push\<close>, \<^verbatim>\<open>u.$inc\<close>, \<^verbatim>\<open>u.$unset\<close> has it. The test
  \<^verbatim>\<open>key in (update.$set || {})\<close> also finds the members that every object inherits: from
  the group \<^verbatim>\<open>{ constructor: 1, a: 2 }\<close>, with the update \<^verbatim>\<open>{}\<close> that has none of the
  four groups, the code removes \<^verbatim>\<open>constructor\<close> and returns \<^verbatim>\<open>{ a: 2 }\<close>.
\<close>

theorem C10_inherited_name_removed:
  "isUpdateFilter (JObj [])
   \<and> cleanSetOnInsert [(''constructor'', JNum 1), (''a'', JNum 2)] (JObj [])
     = Some [(''a'', JNum 2)]
   \<and> ''constructor'' \<notin> set (keysOf (ownProp (JObj []) ''$set''))
   \<and> ''constructor'' \<notin> set (keysOf (ownProp (JObj []) ''$push''))
   \<and> ''constructor'' \<notin> set (keysOf (ownProp (JObj []) ''$inc''))
   \<and> ''constructor'' \<notin> set (keysOf (ownProp (JObj []) ''$unset''))"
  by (simp add: js_defs keysOf_def conflictGroups_def)

section \<open>Properties of spreading and attaching\<close>

lemma assign_single: "assign t [(k, v)] = AList.update k v t"
  by (simp add: assign_def)

lemma map_of_attach:
  "map_of (spread base (when_nonempty name entries)) k =
     (if k = name \<and> entries \<noteq> [] then Some (JObj entries) else map_of base k)"
  by (simp add: spread_def when_nonempty_def assign_single AList.update_conv')

lemma spread_attach:
  "spread base (when_nonempty name entries) =
     (if entries = [] then base else AList.update name (JObj entries) base)"
  by (simp add: spread_def when_nonempty_def assign_single)

lemma spread_unless_targeted:
  "spread base (unless_targeted u f v) =
     (if truthy (optProp (ownProp u ''$set'') f) \<or> truthy (optProp (ownProp u ''$unset'') f)
      then base else AList.update f v base)"
  by (simp add: spread_def unless_targeted_def assign_single)

lemma distinct_spread: "distinct (map fst t) \<Longrightarrow> distinct (map fst (spread t v))"
  by (simp add: spread_def distinct_assign)

lemma spread_Nil_obj: "distinct (map fst ps) \<Longrightarrow> spread [] (JObj ps) = ps"
  by (simp add: spread_def assign_Nil_id)

lemma map_of_spread_Nil_obj: "distinct (map fst ps) \<Longrightarrow> map_of (spread [] (JObj ps)) = map_of ps"
  by (simp add: spread_Nil_obj)

lemma keys_spread: "fst ` set (spread t v) = fst ` set t \<union> set (keysOf v)"
  by (simp add: spread_def keys_assign keysOf_def)

lemma bulk_updateOne:
  "timestampBulkWriteOperation now1 now2 (JObj [(''updateOne'', m)]) =
     timestampUpdateModel now1 ''updateOne'' (JObj [(''updateOne'', m)])"
  by (simp add: timestampBulkWriteOperation_def)

lemma bulk_updateMany:
  "timestampBulkWriteOperation now1 now2 (JObj [(''updateMany'', m)]) =
     timestampUpdateModel now1 ''updateMany'' (JObj [(''updateMany'', m)])"
  by (simp add: timestampBulkWriteOperation_def)

lemma bulk_update:
  assumes "tag = ''updateOne'' \<or> tag = ''updateMany''"
  shows "timestampBulkWriteOperation now1 now2 (JObj [(tag, m)]) =
     timestampUpdateModel now1 tag (JObj [(tag, m)])"
  using assms bulk_updateOne bulk_updateMany by blast

lemma updateModel_document:
  assumes "ownProp (JObj m) ''update'' = JObj ps"
  shows "timestampUpdateModel now tag (JObj [(tag, JObj m)]) =
     Some (JObj [(tag, JObj (AList.update ''update''
       (JObj (spread (spread (spread [] (JObj ps))
          (when_nonempty ''$currentDate''
             (spread (spread [] (ownProp (JObj ps) ''$currentDate''))
                (unless_targeted (JObj ps) ''updatedAt'' (JBool True)))))
          (when_nonempty ''$setOnInsert''
             (spread (spread [] (ownProp (JObj ps) ''$setOnInsert''))
                (unless_targeted (JObj ps) ''createdAt'' (JDate now))))))
       (spread [] (JObj m))))])"
  using assms
  by (simp add: timestampUpdateModel_def getProp_def ownProp_def)

lemma updateFilter_document:
  "timestampUpdateFilter (JObj ps) =
     Some (JObj (spread (spread [] (JObj ps))
       (when_nonempty ''$currentDate''
          (spread (spread [] (ownProp (JObj ps) ''$currentDate''))
             (unless_targeted (JObj ps) ''updatedAt'' (JBool True))))))"
  by (simp add: timestampUpdateFilter_def getProp_def)

lemma ownProp_obj: "ownProp (JObj ps) k = (case map_of ps k of Some x \<Rightarrow> x | None \<Rightarrow> JUndefined)"
  by (simp add: ownProp_def)

lemma ownProp_cong: "map_of ps k = map_of qs k \<Longrightarrow> ownProp (JObj ps) k = ownProp (JObj qs) k"
  by (simp add: ownProp_obj)

lemma ownProp_single: "ownProp (JObj [(k, v)]) k = v"
  by (simp add: ownProp_obj)

lemma ownProp_update_same: "ownProp (JObj (AList.update k v ps)) k = v"
  by (simp add: ownProp_obj AList.update_conv')

lemma currentDate_kept:
  assumes tr: "truthy (optProp (ownProp u ''$set'') ''updatedAt'') \<or>
               truthy (optProp (ownProp u ''$unset'') ''updatedAt'')"
    and base: "map_of base ''$currentDate'' = map_of (own_props u) ''$currentDate''"
  shows "set (keysOf (ownProp (JObj (spread base (when_nonempty ''$currentDate''
            (spread (spread [] (ownProp u ''$currentDate''))
               (unless_targeted u ''updatedAt'' (JBool True)))))) ''$currentDate''))
         = set (keysOf (ownProp u ''$currentDate''))"
proof -
  let ?cd = "spread [] (ownProp u ''$currentDate'')"
  have same: "spread ?cd (unless_targeted u ''updatedAt'' (JBool True)) = ?cd"
    using tr by (simp add: spread_unless_targeted)
  have keys: "fst ` set ?cd = set (keysOf (ownProp u ''$currentDate''))"
    by (simp add: keys_spread)
  show ?thesis
  proof (cases "?cd = []")
    case True
    then have "ownProp (JObj (spread base (when_nonempty ''$currentDate'' ?cd))) ''$currentDate''
        = ownProp u ''$currentDate''"
      using base by (simp add: spread_attach ownProp_def)
    then show ?thesis by (simp add: same)
  next
    case False
    then have "ownProp (JObj (spread base (when_nonempty ''$currentDate'' ?cd))) ''$currentDate''
        = JObj ?cd"
      by (simp add: spread_attach ownProp_update_same)
    then show ?thesis using keys by (simp add: same keysOf_def)
  qed
qed

lemma map_of_stamp:
  assumes "distinct (map fst d)"
  shows "map_of (spread [(''createdAt'', c), (''updatedAt'', u)] (JObj d)) k =
     (case map_of d k of
        Some v \<Rightarrow> Some v
      | None \<Rightarrow> map_of [(''createdAt'', c), (''updatedAt'', u)] k)"
  using assms by (simp add: spread_def map_of_assign map_add_def split: option.split)

section \<open>Pipeline updates\<close>

text \<open>
  Claim C2, as the code has it. For every update that is a list of pipeline stages,
  \<^verbatim>\<open>timestampBulkWriteOperation\<close> returns an \<^verbatim>\<open>updateOne\<close> or \<^verbatim>\<open>updateMany\<close>
  operation as it is: nothing is added and nothing changes.
\<close>

theorem C2_bulk_pipeline_passthrough:
  assumes "tag = ''updateOne'' \<or> tag = ''updateMany''"
    and "getProp m ''update'' = Some (JArr stages)"
  shows "timestampBulkWriteOperation now1 now2 (JObj [(tag, m)]) = Some (JObj [(tag, m)])"
proof -
  have "timestampUpdateModel now1 tag (JObj [(tag, m)]) = Some (JObj [(tag, m)])"
    using assms(2) by (simp add: timestampUpdateModel_def ownProp_def)
  with bulk_update [OF assms(1)] show ?thesis by simp
qed

theorem C2_bulk_pipeline_passthrough_witness:
  "getProp (JObj [(''filter'', JObj []), (''update'', JArr [JObj [(''$set'', JObj [(''a'', JNum 1)])]])])
     ''update'' = Some (JArr [JObj [(''$set'', JObj [(''a'', JNum 1)])]])
   \<and> timestampBulkWriteOperation 5 6
        (JObj [(''updateMany'',
           JObj [(''filter'', JObj []), (''update'', JArr [JObj [(''$set'', JObj [(''a'', JNum 1)])]])])])
     = Some (JObj [(''updateMany'',
           JObj [(''filter'', JObj []), (''update'', JArr [JObj [(''$set'', JObj [(''a'', JNum 1)])]])])])"
proof -
  let ?m = "JObj [(''filter'', JObj []), (''update'', JArr [JObj [(''$set'', JObj [(''a'', JNum 1)])]])]"
  have tag: "''updateMany'' = ''updateOne'' \<or> ''updateMany'' = ''updateMany''" by simp
  have upd: "getProp ?m ''update'' = Some (JArr [JObj [(''$set'', JObj [(''a'', JNum 1)])]])"
    by (simp add: getProp_def ownProp_def)
  from C2_bulk_pipeline_passthrough [OF tag upd, of 5 6] upd show ?thesis by simp
qed

text \<open>
  Claim C2 as stated also covers \<^verbatim>\<open>timestampUpdateFilter\<close>. That function has no
  branch for arrays: its parameter has the type \<^verbatim>\<open>UpdateFilter<TSchema>\<close>, an operator
  document. Applied to the one-stage pipeline \<^verbatim>\<open>[{ $set: { a: 1 } }]\<close> it returns the
  object \<^verbatim>\<open>{ 0: { $set: { a: 1 } }, $currentDate: { updatedAt: true } }\<close>, not the
  pipeline.
\<close>

theorem C2_updateFilter_pipeline_counterexample:
  "timestampUpdateFilter (JArr [JObj [(''$set'', JObj [(''a'', JNum 1)])]])
   = Some (JObj [(''0'', JObj [(''$set'', JObj [(''a'', JNum 1)])]),
                 (''$currentDate'', JObj [(''updatedAt'', JBool True)])])
   \<and> timestampUpdateFilter (JArr [JObj [(''$set'', JObj [(''a'', JNum 1)])]])
     \<noteq> Some (JArr [JObj [(''$set'', JObj [(''a'', JNum 1)])]])"
  by code_simp

section \<open>Precedence of the caller over the modification timestamp\<close>

text \<open>
  Claim C3 as stated fails where the caller's own \<^verbatim>\<open>$currentDate\<close> group names
  \<^verbatim>\<open>updatedAt\<close>: the group is copied into the result, so the result's group contains
  \<^verbatim>\<open>updatedAt\<close> although \<^verbatim>\<open>$set\<close> names it too.
\<close>

theorem C3_caller_currentDate_counterexample:
  "timestampUpdateFilter
     (JObj [(''$set'', JObj [(''updatedAt'', JDate 3)]),
            (''$currentDate'', JObj [(''updatedAt'', JBool True)])])
   = Some (JObj [(''$set'', JObj [(''updatedAt'', JDate 3)]),
                 (''$currentDate'', JObj [(''updatedAt'', JBool True)])])
   \<and> ''updatedAt'' \<in> set (keysOf (ownProp
         (JObj [(''$set'', JObj [(''updatedAt'', JDate 3)]),
                (''$currentDate'', JObj [(''updatedAt'', JBool True)])]) ''$currentDate''))"
  by (simp add: js_defs keysOf_def)

text \<open>
  Claim C3, as the code has it. For every operator document in which \<^verbatim>\<open>$set\<close> or
  \<^verbatim>\<open>$unset\<close> holds a truthy value for \<^verbatim>\<open>updatedAt\<close>, the normalization adds nothing
  to \<^verbatim>\<open>$currentDate\<close>: the group of the result of \<^verbatim>\<open>timestampUpdateFilter\<close>, and of
  the update that \<^verbatim>\<open>timestampBulkWriteOperation\<close> produces for \<^verbatim>\<open>updateOne\<close> and
  \<^verbatim>\<open>updateMany\<close>, has exactly the property names of the caller's group, so it contains
  \<^verbatim>\<open>updatedAt\<close> only if the caller's own group did.
\<close>

theorem C3_truthy_target_adds_nothing:
  assumes d: "distinct (map fst ps)"
    and tr: "truthy (optProp (ownProp (JObj ps) ''$set'') ''updatedAt'') \<or>
             truthy (optProp (ownProp (JObj ps) ''$unset'') ''updatedAt'')"
    and tag: "tag = ''updateOne'' \<or> tag = ''updateMany''"
    and upd: "ownProp (JObj m) ''update'' = JObj ps"
  shows "(\<exists>r. timestampUpdateFilter (JObj ps) = Some r \<and>
            set (keysOf (ownProp r ''$currentDate''))
              = set (keysOf (ownProp (JObj ps) ''$currentDate''))) \<and>
         (\<exists>r. timestampBulkWriteOperation now1 now2 (JObj [(tag, JObj m)]) = Some r \<and>
            set (keysOf (ownProp (ownProp (ownProp r tag) ''update'') ''$currentDate''))
              = set (keysOf (ownProp (JObj ps) ''$currentDate'')))"
proof
  let ?u = "JObj ps"
  have base: "map_of (spread [] ?u) ''$currentDate'' = map_of (own_props ?u) ''$currentDate''"
    using d by (simp add: spread_Nil_obj)
  show "\<exists>r. timestampUpdateFilter ?u = Some r \<and>
            set (keysOf (ownProp r ''$currentDate'')) = set (keysOf (ownProp ?u ''$currentDate''))"
    unfolding updateFilter_document using currentDate_kept [OF tr base] by simp
  let ?withCd = "spread (spread [] ?u) (when_nonempty ''$currentDate''
             (spread (spread [] (ownProp ?u ''$currentDate''))
                (unless_targeted ?u ''updatedAt'' (JBool True))))"
  let ?soi = "spread (spread [] (ownProp ?u ''$setOnInsert''))
                (unless_targeted ?u ''createdAt'' (JDate now1))"
  let ?new = "JObj (spread ?withCd (when_nonempty ''$setOnInsert'' ?soi))"
  have "ownProp ?new ''$currentDate'' = ownProp (JObj ?withCd) ''$currentDate''"
    by (rule ownProp_cong) (simp add: map_of_attach)
  with currentDate_kept [OF tr base]
  have "set (keysOf (ownProp ?new ''$currentDate'')) = set (keysOf (ownProp ?u ''$currentDate''))"
    by simp
  then show "\<exists>r. timestampBulkWriteOperation now1 now2 (JObj [(tag, JObj m)]) = Some r \<and>
            set (keysOf (ownProp (ownProp (ownProp r tag) ''update'') ''$currentDate''))
              = set (keysOf (ownProp ?u ''$currentDate''))"
    unfolding bulk_update [OF tag] updateModel_document [OF upd]
    by (simp add: ownProp_single ownProp_update_same)
qed

theorem C3_truthy_target_adds_nothing_witness:
  "distinct (map fst [(''$set'', JObj [(''updatedAt'', JDate 3)]),
                      (''$currentDate'', JObj [(''lastSeen'', JBool True)])])
   \<and> truthy (optProp (ownProp (JObj [(''$set'', JObj [(''updatedAt'', JDate 3)]),
                      (''$currentDate'', JObj [(''lastSeen'', JBool True)])]) ''$set'') ''updatedAt'')
   \<and> timestampUpdateFilter
        (JObj [(''$set'', JObj [(''updatedAt'', JDate 3)]),
               (''$currentDate'', JObj [(''lastSeen'', JBool True)])])
     = Some (JObj [(''$set'', JObj [(''updatedAt'', JDate 3)]),
                   (''$currentDate'', JObj [(''lastSeen'', JBool True)])])
   \<and> set (keysOf (ownProp
         (JObj [(''$set'', JObj [(''updatedAt'', JDate 3)]),
                (''$currentDate'', JObj [(''lastSeen'', JBool True)])]) ''$currentDate''))
     = {''lastSeen''}"
proof -
  let ?ps = "[(''$set'', JObj [(''updatedAt'', JDate 3)]),
              (''$currentDate'', JObj [(''lastSeen'', JBool True)])]"
  let ?m = "[(''filter'', JObj []), (''update'', JObj ?ps)]"
  have d: "distinct (map fst ?ps)" by simp
  have t: "truthy (optProp (ownProp (JObj ?ps) ''$set'') ''updatedAt'')"
    by (simp add: optProp_def ownProp_def)
  then have tr: "truthy (optProp (ownProp (JObj ?ps) ''$set'') ''updatedAt'') \<or>
            truthy (optProp (ownProp (JObj ?ps) ''$unset'') ''updatedAt'')" ..
  have tag: "''updateOne'' = ''updateOne'' \<or> ''updateOne'' = ''updateMany''" by simp
  have upd: "ownProp (JObj ?m) ''update'' = JObj ?ps" by (simp add: ownProp_def)
  from C3_truthy_target_adds_nothing [OF d tr tag upd, of 5 6]
  obtain r where r: "timestampUpdateFilter (JObj ?ps) = Some r"
    and k: "set (keysOf (ownProp r ''$currentDate''))
              = set (keysOf (ownProp (JObj ?ps) ''$currentDate''))"
    by blast
  have run: "timestampUpdateFilter (JObj ?ps) = Some (JObj ?ps)"
    by (simp add: js_defs)
  have keys: "set (keysOf (ownProp (JObj ?ps) ''$currentDate'')) = {''lastSeen''}"
    by (simp add: keysOf_def ownProp_def)
  from d t run keys show ?thesis by iprover
qed

text \<open>
  The test on \<^verbatim>\<open>$set\<close> and \<^verbatim>\<open>$unset\<close> is a test of the value, not of the presence
  of the key: \<^verbatim>\<open>{ $unset: { updatedAt: '' } }\<close> still gets \<^verbatim>\<open>$currentDate\<close>.
\<close>

lemma updateFilter_unset_empty_string:
  "timestampUpdateFilter (JObj [(''$unset'', JObj [(''updatedAt'', JStr [])])])
   = Some (JObj [(''$unset'', JObj [(''updatedAt'', JStr [])]),
                 (''$currentDate'', JObj [(''updatedAt'', JBool True)])])"
  by (simp add: js_defs)

section \<open>Inserts and replacements\<close>

text \<open>
  Claim C5. For every \<^verbatim>\<open>insertOne\<close> and every \<^verbatim>\<open>replaceOne\<close> operation,
  \<^verbatim>\<open>timestampBulkWriteOperation\<close> returns an operation whose document (its replacement)
  has both \<^verbatim>\<open>createdAt\<close> and \<^verbatim>\<open>updatedAt\<close>: the caller's value where the caller
  gave one, and otherwise the clock reading taken for that field during the call.
\<close>

theorem C5_insert_replace_timestamps:
  assumes d: "distinct (map fst d)"
  shows "(ownProp (JObj m) ''document'' = JObj d \<longrightarrow>
           (\<exists>d'. timestampBulkWriteOperation now1 now2 (JObj [(''insertOne'', JObj m)])
                  = Some (JObj [(''insertOne'', JObj [(''document'', JObj d')])]) \<and>
              map_of d' ''createdAt''
                = Some (case map_of d ''createdAt'' of Some v \<Rightarrow> v | None \<Rightarrow> JDate now1) \<and>
              map_of d' ''updatedAt''
                = Some (case map_of d ''updatedAt'' of Some v \<Rightarrow> v | None \<Rightarrow> JDate now2))) \<and>
         (ownProp (JObj m) ''replacement'' = JObj d \<longrightarrow>
           (\<exists>m' d'. timestampBulkWriteOperation now1 now2 (JObj [(''replaceOne'', JObj m)])
                  = Some (JObj [(''replaceOne'', JObj m')]) \<and>
              map_of m' ''replacement'' = Some (JObj d') \<and>
              map_of d' ''createdAt''
                = Some (case map_of d ''createdAt'' of Some v \<Rightarrow> v | None \<Rightarrow> JDate now1) \<and>
              map_of d' ''updatedAt''
                = Some (case map_of d ''updatedAt'' of Some v \<Rightarrow> v | None \<Rightarrow> JDate now2)))"
proof (intro conjI impI)
  let ?d' = "spread [(''createdAt'', JDate now1), (''updatedAt'', JDate now2)] (JObj d)"
  have c: "map_of ?d' ''createdAt''
      = Some (case map_of d ''createdAt'' of Some v \<Rightarrow> v | None \<Rightarrow> JDate now1)"
    by (simp add: map_of_stamp [OF d] split: option.split)
  have u: "map_of ?d' ''updatedAt''
      = Some (case map_of d ''updatedAt'' of Some v \<Rightarrow> v | None \<Rightarrow> JDate now2)"
    by (simp add: map_of_stamp [OF d] split: option.split)
  {
    assume doc: "ownProp (JObj m) ''document'' = JObj d"
    have "timestampBulkWriteOperation now1 now2 (JObj [(''insertOne'', JObj m)])
        = Some (JObj [(''insertOne'', JObj [(''document'', JObj ?d')])])"
      using doc by (simp add: timestampBulkWriteOperation_def getProp_def ownProp_single)
    with c u show "\<exists>d'. timestampBulkWriteOperation now1 now2 (JObj [(''insertOne'', JObj m)])
                  = Some (JObj [(''insertOne'', JObj [(''document'', JObj d')])]) \<and>
              map_of d' ''createdAt''
                = Some (case map_of d ''createdAt'' of Some v \<Rightarrow> v | None \<Rightarrow> JDate now1) \<and>
              map_of d' ''updatedAt''
                = Some (case map_of d ''updatedAt'' of Some v \<Rightarrow> v | None \<Rightarrow> JDate now2)"
      by blast
  }
  {
    assume rep: "ownProp (JObj m) ''replacement'' = JObj d"
    let ?m' = "AList.update ''replacement'' (JObj ?d') (spread [] (JObj m))"
    have "timestampBulkWriteOperation now1 now2 (JObj [(''replaceOne'', JObj m)])
        = Some (JObj [(''replaceOne'', JObj ?m')])"
      using rep by (simp add: timestampBulkWriteOperation_def getProp_def ownProp_single)
    moreover have "map_of ?m' ''replacement'' = Some (JObj ?d')"
      by (simp add: AList.update_conv')
    ultimately show "\<exists>m' d'. timestampBulkWriteOperation now1 now2 (JObj [(''replaceOne'', JObj m)])
                  = Some (JObj [(''replaceOne'', JObj m')]) \<and>
              map_of m' ''replacement'' = Some (JObj d') \<and>
              map_of d' ''createdAt''
                = Some (case map_of d ''createdAt'' of Some v \<Rightarrow> v | None \<Rightarrow> JDate now1) \<and>
              map_of d' ''updatedAt''
                = Some (case map_of d ''updatedAt'' of Some v \<Rightarrow> v | None \<Rightarrow> JDate now2)"
      using c u by blast
  }
qed

theorem C5_insert_replace_timestamps_witness:
  "distinct (map fst [(''name'', JStr ''Ann''), (''createdAt'', JDate 1)])
   \<and> timestampBulkWriteOperation 5 6
        (JObj [(''insertOne'', JObj [(''document'',
           JObj [(''name'', JStr ''Ann''), (''createdAt'', JDate 1)])])])
     = Some (JObj [(''insertOne'', JObj [(''document'',
           JObj [(''createdAt'', JDate 1), (''updatedAt'', JDate 6), (''name'', JStr ''Ann'')])])])
   \<and> timestampBulkWriteOperation 5 6
        (JObj [(''replaceOne'', JObj [(''filter'', JObj [(''name'', JStr ''Ann'')]),
           (''replacement'', JObj [(''name'', JStr ''Ann''), (''createdAt'', JDate 1)])])])
     = Some (JObj [(''replaceOne'', JObj [(''filter'', JObj [(''name'', JStr ''Ann'')]),
           (''replacement'',
            JObj [(''createdAt'', JDate 1), (''updatedAt'', JDate 6), (''name'', JStr ''Ann'')])])])
   \<and> map_of [(''createdAt'', JDate 1), (''updatedAt'', JDate 6), (''name'', JStr ''Ann'')]
        ''createdAt'' = Some (JDate 1)
   \<and> map_of [(''createdAt'', JDate 1), (''updatedAt'', JDate 6), (''name'', JStr ''Ann'')]
        ''updatedAt'' = Some (JDate 6)"
proof -
  let ?d = "[(''name'', JStr ''Ann''), (''createdAt'', JDate 1)]"
  let ?d' = "[(''createdAt'', JDate 1), (''updatedAt'', JDate 6), (''name'', JStr ''Ann'')]"
  let ?m = "[(''document'', JObj ?d)]"
  let ?n = "[(''filter'', JObj [(''name'', JStr ''Ann'')]), (''replacement'', JObj ?d)]"
  have d: "distinct (map fst ?d)" by simp
  have doc: "ownProp (JObj ?m) ''document'' = JObj ?d" by (simp add: ownProp_def)
  have rep: "ownProp (JObj ?n) ''replacement'' = JObj ?d" by (simp add: ownProp_def)
  from C5_insert_replace_timestamps [OF d, of ?m 5 6, THEN conjunct1] doc
  have "\<exists>d'. timestampBulkWriteOperation 5 6 (JObj [(''insertOne'', JObj ?m)])
        = Some (JObj [(''insertOne'', JObj [(''document'', JObj d')])]) \<and>
      map_of d' ''createdAt''
        = Some (case map_of ?d ''createdAt'' of Some v \<Rightarrow> v | None \<Rightarrow> JDate 5) \<and>
      map_of d' ''updatedAt''
        = Some (case map_of ?d ''updatedAt'' of Some v \<Rightarrow> v | None \<Rightarrow> JDate 6)"
    by (rule mp)
  then obtain d' where run: "timestampBulkWriteOperation 5 6 (JObj [(''insertOne'', JObj ?m)])
        = Some (JObj [(''insertOne'', JObj [(''document'', JObj d')])])"
    and c: "map_of d' ''createdAt''
        = Some (case map_of ?d ''createdAt'' of Some v \<Rightarrow> v | None \<Rightarrow> JDate 5)"
    and u: "map_of d' ''updatedAt''
        = Some (case map_of ?d ''updatedAt'' of Some v \<Rightarrow> v | None \<Rightarrow> JDate 6)"
    by (elim exE conjE) (rule that)
  have ins: "timestampBulkWriteOperation 5 6 (JObj [(''insertOne'', JObj ?m)])
      = Some (JObj [(''insertOne'', JObj [(''document'', JObj ?d')])])"
    by (simp add: js_defs)
  have eq: "d' = ?d'"
    using run unfolding ins by simp
  have created: "map_of ?d' ''createdAt'' = Some (JDate 1)"
    using c unfolding eq by simp
  have updated: "map_of ?d' ''updatedAt'' = Some (JDate 6)"
    using u unfolding eq by simp
  from C5_insert_replace_timestamps [OF d, of ?n 5 6, THEN conjunct2] rep
  have "\<exists>m' d'. timestampBulkWriteOperation 5 6 (JObj [(''replaceOne'', JObj ?n)])
        = Some (JObj [(''replaceOne'', JObj m')]) \<and>
      map_of m' ''replacement'' = Some (JObj d') \<and>
      map_of d' ''createdAt''
        = Some (case map_of ?d ''createdAt'' of Some v \<Rightarrow> v | None \<Rightarrow> JDate 5) \<and>
      map_of d' ''updatedAt''
        = Some (case map_of ?d ''updatedAt'' of Some v \<Rightarrow> v | None \<Rightarrow> JDate 6)"
    by (rule mp)
  have repl: "timestampBulkWriteOperation 5 6 (JObj [(''replaceOne'', JObj ?n)])
      = Some (JObj [(''replaceOne'', JObj [(''filter'', JObj [(''name'', JStr ''Ann'')]),
           (''replacement'', JObj ?d')])])"
    by (simp add: js_defs)
  from d ins repl created updated show ?thesis by iprover
qed

section \<open>The set-on-insert default of an update\<close>

text \<open>
  Claim C6 says that \<^verbatim>\<open>createdAt\<close> is not added to \<^verbatim>\<open>$setOnInsert\<close> when the
  caller's \<^verbatim>\<open>$set\<close> or \<^verbatim>\<open>$unset\<close> already targets \<^verbatim>\<open>createdAt\<close>. The code tests
  the value held for the key, not the key: for \<^verbatim>\<open>{ $unset: { createdAt: '' } }\<close>, the
  usual way to write an unset, it adds \<^verbatim>\<open>$setOnInsert: { createdAt: now }\<close> all the same.
\<close>

theorem C6_unset_createdAt_still_defaulted:
  "timestampBulkWriteOperation now1 now2
     (JObj [(''updateOne'', JObj
        [(''filter'', JObj []),
         (''update'', JObj [(''$unset'', JObj [(''createdAt'', JStr [])])])])])
   = Some (JObj [(''updateOne'', JObj
        [(''filter'', JObj []),
         (''update'', JObj
            [(''$unset'', JObj [(''createdAt'', JStr [])]),
             (''$currentDate'', JObj [(''updatedAt'', JBool True)]),
             (''$setOnInsert'', JObj [(''createdAt'', JDate now1)])])])])"
  by (simp add: js_defs)

section \<open>What an update keeps\<close>

text \<open>
  Claim C7. For every \<^verbatim>\<open>updateOne\<close> or \<^verbatim>\<open>updateMany\<close> operation with an operator
  document, \<^verbatim>\<open>timestampBulkWriteOperation\<close> leaves every field of the operation
  descriptor but \<^verbatim>\<open>update\<close> (the filter, the options) as it was, and in the new update
  every operator group but \<^verbatim>\<open>$currentDate\<close> and \<^verbatim>\<open>$setOnInsert\<close> is the caller's.
\<close>

theorem C7_update_frame:
  assumes tag: "tag = ''updateOne'' \<or> tag = ''updateMany''"
    and dm: "distinct (map fst m)"
    and upd: "ownProp (JObj m) ''update'' = JObj ps"
    and dps: "distinct (map fst ps)"
  shows "\<exists>m' ps'. timestampBulkWriteOperation now1 now2 (JObj [(tag, JObj m)])
                    = Some (JObj [(tag, JObj m')]) \<and>
           (\<forall>k. k \<noteq> ''update'' \<longrightarrow> map_of m' k = map_of m k) \<and>
           map_of m' ''update'' = Some (JObj ps') \<and>
           (\<forall>g. g \<noteq> ''$currentDate'' \<and> g \<noteq> ''$setOnInsert'' \<longrightarrow> map_of ps' g = map_of ps g)"
proof -
  let ?u = "JObj ps"
  let ?ps' = "spread (spread (spread [] ?u) (when_nonempty ''$currentDate''
             (spread (spread [] (ownProp ?u ''$currentDate''))
                (unless_targeted ?u ''updatedAt'' (JBool True)))))
          (when_nonempty ''$setOnInsert''
             (spread (spread [] (ownProp ?u ''$setOnInsert''))
                (unless_targeted ?u ''createdAt'' (JDate now1))))"
  let ?m' = "AList.update ''update'' (JObj ?ps') (spread [] (JObj m))"
  have run: "timestampBulkWriteOperation now1 now2 (JObj [(tag, JObj m)])
      = Some (JObj [(tag, JObj ?m')])"
    unfolding bulk_update [OF tag] updateModel_document [OF upd] ..
  have fields: "map_of ?m' k = map_of m k" if "k \<noteq> ''update''" for k
    using that dm by (simp add: AList.update_conv' spread_Nil_obj)
  have new: "map_of ?m' ''update'' = Some (JObj ?ps')"
    by (simp add: AList.update_conv')
  have groups: "map_of ?ps' g = map_of ps g" if "g \<noteq> ''$currentDate'' \<and> g \<noteq> ''$setOnInsert''" for g
    using that dps by (simp add: map_of_attach spread_Nil_obj)
  from run fields new groups show ?thesis by blast
qed

theorem C7_update_frame_witness:
  "distinct (map fst [(''filter'', JObj [(''status'', JStr ''open'')]),
                      (''update'', JObj [(''$inc'', JObj [(''visits'', JNum 1)])]),
                      (''upsert'', JBool True)])
   \<and> timestampBulkWriteOperation 5 6
        (JObj [(''updateMany'', JObj
           [(''filter'', JObj [(''status'', JStr ''open'')]),
            (''update'', JObj [(''$inc'', JObj [(''visits'', JNum 1)])]),
            (''upsert'', JBool True)])])
     = Some (JObj [(''updateMany'', JObj
           [(''filter'', JObj [(''status'', JStr ''open'')]),
            (''update'', JObj
               [(''$inc'', JObj [(''visits'', JNum 1)]),
                (''$currentDate'', JObj [(''updatedAt'', JBool True)]),
                (''$setOnInsert'', JObj [(''createdAt'', JDate 5)])]),
            (''upsert'', JBool True)])])
   \<and> map_of [(''$inc'', JObj [(''visits'', JNum 1)]),
              (''$currentDate'', JObj [(''updatedAt'', JBool True)]),
              (''$setOnInsert'', JObj [(''createdAt'', JDate 5)])] ''$inc''
     = map_of [(''$inc'', JObj [(''visits'', JNum 1)])] ''$inc''"
proof -
  let ?ps = "[(''$inc'', JObj [(''visits'', JNum 1)])]"
  let ?m = "[(''filter'', JObj [(''status'', JStr ''open'')]), (''update'', JObj ?ps),
             (''upsert'', JBool True)]"
  let ?ps' = "[(''$inc'', JObj [(''visits'', JNum 1)]),
               (''$currentDate'', JObj [(''updatedAt'', JBool True)]),
               (''$setOnInsert'', JObj [(''createdAt'', JDate 5)])]"
  have tag: "''updateMany'' = ''updateOne'' \<or> ''updateMany'' = ''updateMany''" by simp
  have dm: "distinct (map fst ?m)" by simp
  have upd: "ownProp (JObj ?m) ''update'' = JObj ?ps" by (simp add: ownProp_def)
  have dps: "distinct (map fst ?ps)" by simp
  from C7_update_frame [OF tag dm upd dps, of 5 6]
  obtain m' ps' where run: "timestampBulkWriteOperation 5 6 (JObj [(''updateMany'', JObj ?m)])
        = Some (JObj [(''updateMany'', JObj m')])"
    and fields: "\<forall>k. k \<noteq> ''update'' \<longrightarrow> map_of m' k = map_of ?m k"
    and new: "map_of m' ''update'' = Some (JObj ps')"
    and groups: "\<forall>g. g \<noteq> ''$currentDate'' \<and> g \<noteq> ''$setOnInsert'' \<longrightarrow> map_of ps' g = map_of ?ps g"
    by (elim exE conjE) (rule that)
  have conc: "timestampBulkWriteOperation 5 6 (JObj [(''updateMany'', JObj ?m)])
      = Some (JObj [(''updateMany'', JObj
           [(''filter'', JObj [(''status'', JStr ''open'')]), (''update'', JObj ?ps'),
            (''upsert'', JBool True)])])"
    by code_simp
  have m': "m' = [(''filter'', JObj [(''status'', JStr ''open'')]), (''update'', JObj ?ps'),
            (''upsert'', JBool True)]"
    using run unfolding conc by simp
  have ps': "ps' = ?ps'"
    using new unfolding m' by simp
  from groups have "map_of ps' ''$inc'' = map_of ?ps ''$inc''" by simp
  then have "map_of ?ps' ''$inc'' = map_of ?ps ''$inc''" unfolding ps' .
  with dm conc show ?thesis by iprover
qed

section \<open>Idempotence\<close>

text \<open>
  Claim C9. \<^verbatim>\<open>timestampUpdateFilter\<close> is idempotent on operator documents: it returns,
  and applied to its own result it returns that result again.
\<close>

theorem C9_updateFilter_idempotent:
  assumes d: "distinct (map fst ps)"
  shows "\<exists>r. timestampUpdateFilter (JObj ps) = Some r \<and> timestampUpdateFilter r = Some r"
proof -
  define guard where "guard = unless_targeted (JObj ps) ''updatedAt'' (JBool True)"
  define cd where "cd = spread (spread [] (ownProp (JObj ps) ''$currentDate'')) guard"
  define r where "r = spread (spread [] (JObj ps)) (when_nonempty ''$currentDate'' cd)"
  have first: "timestampUpdateFilter (JObj ps) = Some (JObj r)"
    unfolding r_def cd_def guard_def by (rule updateFilter_document)
  have r: "r = (if cd = [] then ps else AList.update ''$currentDate'' (JObj cd) ps)"
    unfolding r_def using d by (simp add: spread_attach spread_Nil_obj)
  have dr: "distinct (map fst r)"
    unfolding r using d by (simp add: AList.distinct_update)
  have dcd: "distinct (map fst cd)"
    unfolding cd_def by (intro distinct_spread) simp
  have second: "timestampUpdateFilter (JObj r) = Some (JObj r)"
  proof (cases "cd = []")
    case True
    with r have "r = ps" by simp
    with first show ?thesis by simp
  next
    case False
    with r have r': "r = AList.update ''$currentDate'' (JObj cd) ps" by simp
    have same_guard: "unless_targeted (JObj r) ''updatedAt'' (JBool True) = guard"
      unfolding r' guard_def by (simp add: unless_targeted_def ownProp_obj AList.update_conv')
    have given: "ownProp (JObj r) ''$currentDate'' = JObj cd"
      unfolding r' by (rule ownProp_update_same)
    have "spread cd guard = cd"
      unfolding cd_def guard_def by (simp add: spread_unless_targeted)
    with dcd have again: "spread (spread [] (JObj cd)) guard = cd"
      by (simp add: spread_Nil_obj)
    have "spread r (when_nonempty ''$currentDate'' cd) = r"
      using False by (simp add: spread_attach r')
    with dr have whole: "spread (spread [] (JObj r)) (when_nonempty ''$currentDate'' cd) = r"
      by (simp add: spread_Nil_obj)
    show ?thesis
      unfolding updateFilter_document [of r] same_guard given again whole ..
  qed
  from first second show ?thesis by blast
qed

theorem C9_updateFilter_idempotent_witness:
  "distinct (map fst [(''$set'', JObj [(''status'', JStr ''closed'')])])
   \<and> timestampUpdateFilter (JObj [(''$set'', JObj [(''status'', JStr ''closed'')])])
     = Some (JObj [(''$set'', JObj [(''status'', JStr ''closed'')]),
                   (''$currentDate'', JObj [(''updatedAt'', JBool True)])])
   \<and> timestampUpdateFilter
        (JObj [(''$set'', JObj [(''status'', JStr ''closed'')]),
               (''$currentDate'', JObj [(''updatedAt'', JBool True)])])
     = Some (JObj [(''$set'', JObj [(''status'', JStr ''closed'')]),
                   (''$currentDate'', JObj [(''updatedAt'', JBool True)])])"
proof -
  let ?ps = "[(''$set'', JObj [(''status'', JStr ''closed'')])]"
  have d: "distinct (map fst ?ps)" by simp
  from C9_updateFilter_idempotent [OF d]
  obtain r where first: "timestampUpdateFilter (JObj ?ps) = Some r"
    and second: "timestampUpdateFilter r = Some r"
    by blast
  have "timestampUpdateFilter (JObj ?ps)
      = Some (JObj [(''$set'', JObj [(''status'', JStr ''closed'')]),
                    (''$currentDate'', JObj [(''updatedAt'', JBool True)])])"
    by (simp add: js_defs)
  with first second d show ?thesis by simp
qed

section \<open>Projected shapes\<close>

lemma keys_pickFields:
  "fst ` set (pickFields fs paths) = {k \<in> fst ` set fs. below k paths \<noteq> []}"
proof (induction fs)
  case Nil
  show ?case by simp
next
  case (Cons p fs)
  obtain k sh where p: "p = (k, sh)" by (cases p)
  show ?case
    by (cases "below k paths = []") (auto simp: p Cons.IH)
qed

lemma keys_WithId: "fst ` set (WithId fs) = insert ''_id'' (fst ` set fs)"
  by (auto simp: WithId_def)

lemma map_of_WithId: "k \<in> fst ` set fs \<Longrightarrow> map_of (WithId fs) k = map_of fs k"
  by (force simp: WithId_def)

lemma below_a: "below k [[''a'']] \<noteq> [] \<longleftrightarrow> k = ''a''"
  by (auto simp: below_def)

lemma pick_a:
  assumes "''a'' \<in> fst ` set schema"
  shows "fst ` set (pickFields schema [[''a'']]) = {''a''}"
  unfolding keys_pickFields below_a using assms by auto

text \<open>
  Claim C8. With no projection the derived shape is the whole record shape with the
  identifier field present; with the projection \<^verbatim>\<open>{ a: 1 }\<close> on a shape that has the
  field \<^verbatim>\<open>a\<close> (as the shape with the fields \<^verbatim>\<open>a\<close>, \<^verbatim>\<open>b\<close>, \<^verbatim>\<open>c\<close> has) the
  derived shape has exactly the fields \<^verbatim>\<open>_id\<close> and \<^verbatim>\<open>a\<close>; the identifier field is
  there whatever the projection.
\<close>

theorem C8_projection_shape:
  "ProjectionType schema None = WithId schema \<and>
   (\<forall>k\<in>set (map fst schema). map_of (ProjectionType schema None) k = map_of schema k) \<and>
   ''_id'' \<in> set (map fst (ProjectionType schema projection)) \<and>
   (''a'' \<in> set (map fst schema) \<longrightarrow>
      set (map fst (ProjectionType schema (Some [(''a'', 1)]))) = {''_id'', ''a''})"
proof -
  have full: "ProjectionType schema None = WithId schema"
    by (simp add: ProjectionType_def)
  have same: "map_of (ProjectionType schema None) k = map_of schema k"
    if "k \<in> set (map fst schema)" for k
    using that by (simp add: full map_of_WithId)
  have ident: "''_id'' \<in> set (map fst (ProjectionType schema projection))"
    by (cases projection) (simp_all add: ProjectionType_def keys_WithId)
  have only: "set (map fst (ProjectionType schema (Some [(''a'', 1)]))) = {''_id'', ''a''}"
    if "''a'' \<in> set (map fst schema)"
  proof -
    from that have "fst ` set (pickFields schema [[''a'']]) = {''a''}"
      by (intro pick_a) simp
    then show ?thesis
      by (simp add: ProjectionType_def keys_WithId)
  qed
  from full same ident only show ?thesis by blast
qed

theorem C8_projection_shape_witness:
  "''a'' \<in> set (map fst [(''_id'', Leaf ''string''), (''a'', Leaf ''number''),
                         (''b'', Nested [(''x'', Leaf ''string'')]), (''c'', Leaf ''boolean'')])
   \<and> ProjectionType [(''_id'', Leaf ''string''), (''a'', Leaf ''number''),
                      (''b'', Nested [(''x'', Leaf ''string'')]), (''c'', Leaf ''boolean'')]
        (Some [(''a'', 1)])
     = [(''_id'', Leaf ''ObjectId''), (''a'', Leaf ''number'')]
   \<and> set (map fst (ProjectionType [(''_id'', Leaf ''string''), (''a'', Leaf ''number''),
                      (''b'', Nested [(''x'', Leaf ''string'')]), (''c'', Leaf ''boolean'')]
        (Some [(''a'', 1)]))) = {''_id'', ''a''}"
proof -
  let ?s = "[(''_id'', Leaf ''string''), (''a'', Leaf ''number''),
             (''b'', Nested [(''x'', Leaf ''string'')]), (''c'', Leaf ''boolean'')]"
  have a: "''a'' \<in> set (map fst ?s)" by simp
  have imp: "''a'' \<in> set (map fst ?s) \<longrightarrow>
      set (map fst (ProjectionType ?s (Some [(''a'', 1)]))) = {''_id'', ''a''}"
    using C8_projection_shape [of ?s None] by (elim conjE)
  from imp a have keys: "set (map fst (ProjectionType ?s (Some [(''a'', 1)]))) = {''_id'', ''a''}"
    by (rule mp)
  have run: "ProjectionType ?s (Some [(''a'', 1)]) = [(''_id'', Leaf ''ObjectId''), (''a'', Leaf ''number'')]"
    by code_simp
  from a run keys show ?thesis by (intro conjI)
qed

end
